theory Spec2Isabelle
  imports Complex_Main
begin

section \<open>Python values used by the service\<close>

text \<open>
  A Python \<open>str\<close> is a \<open>string\<close>; each \<open>char\<close> stands for one code point below 256.
  A Python \<open>float\<close> (clock readings, elapsed seconds) is idealised as a \<open>real\<close>; none of the
  statements below depends on rounding. A Python \<open>int\<close> is an \<open>int\<close>.

  An exception is a value: \<open>ValueError\<close> is the class the two modules raise themselves,
  \<open>OtherException\<close> is any other subclass of \<open>Exception\<close> raised by a library call. Both carry
  the text that \<open>str(e)\<close> returns.
\<close>

datatype exn = ValueError string | OtherException string

fun str_exn :: "exn \<Rightarrow> string" where
  "str_exn (ValueError m) = m"
| "str_exn (OtherException m) = m"

text \<open>\<open>str.isspace\<close> on one code point below 256, and \<open>str.strip()\<close> with no argument.\<close>

definition py_isspace :: "char \<Rightarrow> bool" where
  "py_isspace c =
     ((of_char c :: nat) \<in> set [9, 10, 11, 12, 13, 28, 29, 30, 31, 32, 133, 160])"

definition strip :: "string \<Rightarrow> string" where
  "strip t = rev (dropWhile py_isspace (rev (dropWhile py_isspace t)))"

text \<open>\<open>str.lower()\<close> on code points below 256 (ASCII and Latin-1 capitals).\<close>

definition py_lower_char :: "char \<Rightarrow> char" where
  "py_lower_char c =
     (let n = (of_char c :: nat)
      in if (65 \<le> n \<and> n \<le> 90) \<or> (192 \<le> n \<and> n \<le> 222 \<and> n \<noteq> 215)
         then char_of (n + 32) else c)"

definition lower :: "string \<Rightarrow> string" where
  "lower t = map py_lower_char t"

text \<open>\<open>str.rfind\<close> of one character: the last index, or -1.\<close>

definition rfind :: "char \<Rightarrow> string \<Rightarrow> int" where
  "rfind c p = int (length p) - 1 - int (length (takeWhile (\<lambda>x. x \<noteq> c) (rev p)))"

text \<open>Truthiness of an optional string: \<open>None\<close> and \<open>""\<close> are false.\<close>

fun truthy :: "string option \<Rightarrow> bool" where
  "truthy None = False"
| "truthy (Some t) = (t \<noteq> [])"

subsection \<open>\<open>os.path\<close> (POSIX flavour) and \<open>pathlib\<close>\<close>

definition basename :: "string \<Rightarrow> string" where
  "basename p = drop (nat (rfind CHR ''/'' p + 1)) p"

text \<open>
  The loop of \<open>genericpath._splitext\<close> that skips leading dots: true when a character other
  than the dot stands at an index in \<open>[i, dotIndex)\<close>.
\<close>

function skip_dots :: "string \<Rightarrow> nat \<Rightarrow> nat \<Rightarrow> bool" where
  "skip_dots p filenameIndex dotIndex =
     (if filenameIndex < dotIndex
      then (if take 1 (drop filenameIndex p) \<noteq> ''.'' then True
            else skip_dots p (filenameIndex + 1) dotIndex)
      else False)"
  by pat_completeness auto
termination
  by (relation "measure (\<lambda>(p, i, d). d - i)") auto

declare skip_dots.simps [simp del]

definition splitext :: "string \<Rightarrow> string \<times> string" where
  "splitext p =
     (let sepIndex = rfind CHR ''/'' p; dotIndex = rfind CHR ''.'' p
      in if dotIndex > sepIndex \<and> skip_dots p (nat (sepIndex + 1)) (nat dotIndex)
         then (take (nat dotIndex) p, drop (nat dotIndex) p)
         else (p, []))"

definition os_path_join :: "string \<Rightarrow> string \<Rightarrow> string" where
  "os_path_join a b =
     (if take 1 b = ''/'' then b
      else if a = [] \<or> last a = CHR ''/'' then a @ b
      else a @ ''/'' @ b)"

text \<open>
  \<open>Path(file).suffix\<close> for a directory entry name (no separator in it), as pathlib computes
  it up to Python 3.12: the part from the last dot on, unless that dot is the first or the
  last character of the name.
\<close>

definition path_suffix :: "string \<Rightarrow> string" where
  "path_suffix name =
     (let i = rfind CHR ''.'' name
      in if 0 < i \<and> i < int (length name) - 1 then drop (nat i) name else [])"

section \<open>The outside world\<close>

text \<open>
  Everything the modules write to the console is a \<open>message\<close>: one constructor per
  \<open>print\<close> call, with the values the f-string interpolates.
\<close>

datatype message =
    MsgNotAvailable
  | MsgLoading string
  | MsgLoaded real
  | MsgLoadError exn
  | MsgStarted
  | MsgStopped
  | MsgNoAudio string
  | MsgAddedDir int string
  | MsgAddedFile string
  | MsgThreadStarted
  | MsgQueueError exn
  | MsgProcessing string
  | MsgProcessed string real
  | MsgFailed string exn
  | MsgSaved string

datatype whisper_model = WhisperModel string string string

text \<open>
  The answers of the environment during one call (or one iteration of the worker loop):
  \<^item> \<open>console m\<close>: \<open>None\<close> when \<open>print\<close> of \<open>m\<close> returns, \<open>Some e\<close> when it raises \<open>e\<close>
    (a closed stream, a name the stream's encoding cannot write);
  \<^item> \<open>faster_whisper_available\<close>: the module constant set by the import at load time;
  \<^item> \<open>construct\<close>: \<open>None\<close> when the \<open>WhisperModel(...)\<close> constructor returns, else its exception;
  \<^item> \<open>inference path language\<close>: the texts of the segments that \<open>self.model.transcribe\<close>
    yields, or the exception it (or the iteration over the segments) raises;
  \<^item> \<open>convert_to_wav path\<close>: the result of the converter module, which is not among the
    sources read here: a path, \<open>None\<close>, or an exception;
  \<^item> \<open>write_file path\<close>: \<open>None\<close> when opening and writing the file succeeds, else the
    exception (what a failed write leaves behind is not recorded);
  \<^item> \<open>path_exists\<close>, \<open>os_walk\<close>, \<open>makedirs\<close>: the file system calls of the same names;
  \<^item> the clock readings of the \<open>time.time()\<close> calls and the formatted \<open>datetime.now()\<close>.
\<close>

record world =
  console :: "message \<Rightarrow> exn option"
  faster_whisper_available :: bool
  construct :: "exn option"
  inference :: "string \<Rightarrow> string option \<Rightarrow> exn + string list"
  convert_to_wav :: "string \<Rightarrow> exn + string option"
  write_file :: "string \<Rightarrow> exn option"
  path_exists :: "string \<Rightarrow> bool"
  os_walk :: "string \<Rightarrow> (string \<times> string list \<times> string list) list"
  makedirs :: "string \<Rightarrow> exn option"
  put_time :: "string \<Rightarrow> real"
  load_start :: real
  load_end :: real
  transcribe_start :: real
  transcribe_end :: real
  file_start :: real
  file_end :: real
  now_stamp :: string

section \<open>fast\_whisper\_service.py\<close>

text \<open>
  The attributes of \<open>FastWhisperService\<close>; the four keys of its \<open>stats\<close> dictionary are the
  four \<open>whisper_\<close> fields.
\<close>

record service =
  model :: "whisper_model option"
  model_size :: string
  compute_type :: string
  device :: string
  loading :: bool
  whisper_total_processed :: int
  whisper_total_time :: real
  whisper_errors :: int
  whisper_average_time :: real

definition init_service :: service where
  "init_service =
     \<lparr>model = None, model_size = ''small'', compute_type = ''int8'', device = ''cpu'',
      loading = False, whisper_total_processed = 0, whisper_total_time = 0,
      whisper_errors = 0, whisper_average_time = 0\<rparr>"

text \<open>
  \<open>while self._loading: time.sleep(0.1)\<close>. Nothing in the loop changes the flag, so in one
  thread of control it returns at once or never; never returning is \<open>None\<close>.
\<close>

partial_function (option) wait_while_loading :: "service \<Rightarrow> service option" where
  "wait_while_loading s = (if loading s then wait_while_loading s else Some s)"

text \<open>
  \<open>_load_model\<close>. The result is \<open>None\<close> when the call never returns; otherwise the state
  after the call with \<open>Inr b\<close> for \<open>return b\<close> and \<open>Inl e\<close> for an exception leaving the method
  (only a \<open>print\<close> outside the \<open>try\<close>, or inside the handler, can raise one).
  \<open>load_try\<close> is the body of the \<open>try\<close>; \<open>load_model\<close> adds the handler and the \<open>finally\<close>.
\<close>

definition load_try :: "world \<Rightarrow> service \<Rightarrow> exn option \<times> service" where
  "load_try w s =
     (case console w (MsgLoading (model_size s)) of
        Some e \<Rightarrow> (Some e, s)
      | None \<Rightarrow>
        (case construct w of
           Some e \<Rightarrow> (Some e, s)
         | None \<Rightarrow>
           (let s1 = s\<lparr>model := Some (WhisperModel (model_size s) (device s) (compute_type s))\<rparr>
            in (console w (MsgLoaded (load_end w - load_start w)), s1))))"

definition load_model :: "world \<Rightarrow> service \<Rightarrow> ((exn + bool) \<times> service) option" where
  "load_model w s =
     (if model s \<noteq> None then Some (Inr True, s)
      else if \<not> faster_whisper_available w then
        (case console w MsgNotAvailable of
           Some e \<Rightarrow> Some (Inl e, s)
         | None \<Rightarrow> Some (Inr False, s))
      else if model s \<noteq> None then Some (Inr True, s)
      else if loading s then
        (case wait_while_loading s of
           None \<Rightarrow> None
         | Some s1 \<Rightarrow> Some (Inr (model s1 \<noteq> None), s1))
      else
        (case load_try w (s\<lparr>loading := True\<rparr>) of
           (None, s1) \<Rightarrow> Some (Inr True, s1\<lparr>loading := False\<rparr>)
         | (Some e, s1) \<Rightarrow>
           (case console w (MsgLoadError e) of
              Some e2 \<Rightarrow> Some (Inl e2, s1\<lparr>loading := False\<rparr>)
            | None \<Rightarrow> Some (Inr False, s1\<lparr>model := None, loading := False\<rparr>))))"

text \<open>
  \<open>transcribe\<close>. The loop \<open>for segment in segments: transcription += segment.text + " "\<close>
  is \<open>collect\<close>.
\<close>

fun collect :: "string \<Rightarrow> string list \<Rightarrow> string" where
  "collect transcription [] = transcription"
| "collect transcription (text # segments) = collect (transcription @ text @ '' '') segments"

definition transcribe ::
  "world \<Rightarrow> string \<Rightarrow> string option \<Rightarrow> service
     \<Rightarrow> ((exn + (string option \<times> string option)) \<times> service) option" where
  "transcribe w file_path language s =
     (case load_model w s of
        None \<Rightarrow> None
      | Some (Inl e, s1) \<Rightarrow> Some (Inl e, s1)
      | Some (Inr False, s1) \<Rightarrow> Some (Inr (None, Some ''Model not available''), s1)
      | Some (Inr True, s1) \<Rightarrow>
        (case inference w file_path language of
           Inl e \<Rightarrow>
             Some (Inr (None, Some (str_exn e)),
                   s1\<lparr>whisper_errors := whisper_errors s1 + 1\<rparr>)
         | Inr segments \<Rightarrow>
           (let transcription = strip (collect [] segments);
                process_time = transcribe_end w - transcribe_start w;
                n = whisper_total_processed s1 + 1;
                t = whisper_total_time s1 + process_time
            in Some (Inr (Some transcription, None),
                     s1\<lparr>whisper_total_processed := n, whisper_total_time := t,
                        whisper_average_time := t / of_int n\<rparr>))))"

section \<open>file\_queue\_processor.py\<close>

text \<open>
  A queued item is the dictionary \<open>{'file_path', 'output_dir', 'added_at'}\<close>. The attributes
  of \<open>FileQueueProcessor\<close> are the fields of \<open>processor\<close>; the six keys of its \<open>stats\<close>
  dictionary are fields of the same record. \<open>queue.Queue\<close> is the list of pending items,
  oldest first; \<open>processing_thread\<close> records only whether a thread object has been stored.
\<close>

record item =
  file_path :: string
  output_dir :: string
  added_at :: real

record processor =
  queue :: "item list"
  processing_thread :: bool
  is_running :: bool
  total_processed :: int
  successful_processed :: int
  failed_processed :: int
  total_time :: real
  current_file :: "string option"
  queue_size :: int
  default_source_dir :: string
  default_output_dir :: string

text \<open>
  What the calls leave on the disk, in the order they happen: the directories asked of
  \<open>os.makedirs\<close> and the files written, each with its whole content.
\<close>

record disk =
  made_dirs :: "string list"
  written :: "(string \<times> string) list"

definition supported_extensions :: "string list" where
  "supported_extensions = [''.ogg'', ''.m4a'', ''.wav'', ''.mp3'', ''.flac'', ''.aac'', ''.mp4'']"

text \<open>\<open>__init__\<close>; the two defaults come from the environment variables.\<close>

definition init_processor :: "string \<Rightarrow> string \<Rightarrow> processor" where
  "init_processor source_dir out_dir =
     \<lparr>queue = [], processing_thread = False, is_running = False, total_processed = 0,
      successful_processed = 0, failed_processed = 0, total_time = 0, current_file = None,
      queue_size = 0, default_source_dir = source_dir, default_output_dir = out_dir\<rparr>"

text \<open>
  \<open>start\<close> and \<open>stop\<close>, as far as the calling thread goes: the worker thread that \<open>start\<close>
  creates runs \<open>process_queue\<close> below, and the \<open>join\<close> of \<open>stop\<close> only waits. The result
  holds the exception of a \<open>print\<close> that raised.
\<close>

definition start :: "world \<Rightarrow> processor \<Rightarrow> exn option \<times> processor" where
  "start w p =
     (if is_running p then (None, p)
      else (let p1 = p\<lparr>is_running := True, processing_thread := True\<rparr>
            in (console w MsgStarted, p1)))"

definition stop :: "world \<Rightarrow> processor \<Rightarrow> exn option \<times> processor" where
  "stop w p =
     (let p1 = p\<lparr>is_running := False\<rparr>
      in (console w MsgStopped, p1))"

text \<open>\<open>_find_audio_files\<close>: the two nested loops over the triples of \<open>os.walk\<close>.\<close>

fun scan_files :: "string \<Rightarrow> string list \<Rightarrow> string list" where
  "scan_files root_dir [] = []"
| "scan_files root_dir (file # files) =
     (let file_path = os_path_join root_dir file;
          file_ext = lower (path_suffix file)
      in if file_ext \<in> set supported_extensions
         then file_path # scan_files root_dir files
         else scan_files root_dir files)"

fun scan_walk :: "(string \<times> string list \<times> string list) list \<Rightarrow> string list" where
  "scan_walk [] = []"
| "scan_walk ((root_dir, dirs, files) # rest) = scan_files root_dir files @ scan_walk rest"

definition find_audio_files :: "world \<Rightarrow> string \<Rightarrow> string list" where
  "find_audio_files w directory = scan_walk (os_walk w directory)"

text \<open>
  \<open>add_directory\<close> and \<open>add_file\<close>. The outcome is \<open>Inl e\<close> for an exception and \<open>Inr v\<close> for
  the returned value: \<open>Some n\<close> for the integer \<open>n\<close>, \<open>None\<close> for Python's \<open>None\<close>.
\<close>

definition put_all :: "world \<Rightarrow> string \<Rightarrow> string list \<Rightarrow> item list" where
  "put_all w out audio_files =
     map (\<lambda>audio_file. \<lparr>file_path = audio_file, output_dir = out,
                          added_at = put_time w audio_file\<rparr>) audio_files"

fun add_directory ::
  "world \<Rightarrow> string \<Rightarrow> string option \<Rightarrow> processor \<times> disk
     \<Rightarrow> (exn + int option) \<times> processor \<times> disk" where
  "add_directory w source_dir output_dir_opt (p, d) =
     (if \<not> path_exists w source_dir
      then (Inl (ValueError (''Source directory does not exist: '' @ source_dir)), p, d)
      else
        (let out = (case output_dir_opt of None \<Rightarrow> default_output_dir p | Some x \<Rightarrow> x)
         in case makedirs w out of
              Some e \<Rightarrow> (Inl e, p, d)
            | None \<Rightarrow>
              (let d1 = d\<lparr>made_dirs := made_dirs d @ [out]\<rparr>;
                   audio_files = find_audio_files w source_dir
               in if audio_files = [] then
                    (case console w (MsgNoAudio source_dir) of
                       Some e \<Rightarrow> (Inl e, p, d1)
                     | None \<Rightarrow> (Inr None, p, d1))
                  else
                    (let q = queue p @ put_all w out audio_files;
                         p1 = p\<lparr>queue := q, queue_size := int (length q)\<rparr>
                     in case console w (MsgAddedDir (int (length audio_files)) source_dir) of
                          Some e \<Rightarrow> (Inl e, p1, d1)
                        | None \<Rightarrow> (Inr (Some (int (length audio_files))), p1, d1)))))"

fun add_file ::
  "world \<Rightarrow> string \<Rightarrow> string option \<Rightarrow> processor \<times> disk
     \<Rightarrow> (exn + int option) \<times> processor \<times> disk" where
  "add_file w path output_dir_opt (p, d) =
     (if \<not> path_exists w path
      then (Inl (ValueError (''File does not exist: '' @ path)), p, d)
      else
        (let out = (case output_dir_opt of None \<Rightarrow> default_output_dir p | Some x \<Rightarrow> x)
         in case makedirs w out of
              Some e \<Rightarrow> (Inl e, p, d)
            | None \<Rightarrow>
              (let d1 = d\<lparr>made_dirs := made_dirs d @ [out]\<rparr>;
                   q = queue p @ [\<lparr>file_path = path, output_dir = out,
                                    added_at = put_time w path\<rparr>];
                   p1 = p\<lparr>queue := q, queue_size := int (length q)\<rparr>
               in case console w (MsgAddedFile path) of
                    Some e \<Rightarrow> (Inl e, p1, d1)
                  | None \<Rightarrow> (Inr None, p1, d1))))"

text \<open>\<open>_save_transcription\<close>: the file is written whole, then the path is printed.\<close>

definition transcription_text :: "world \<Rightarrow> string \<Rightarrow> string \<Rightarrow> string" where
  "transcription_text w path transcription =
     ''Source: '' @ path @ [CHR 0x0A]
     @ ''Processed: '' @ now_stamp w @ [CHR 0x0A]
     @ ''Service: Faster-Whisper Queue Processor'' @ [CHR 0x0A]
     @ replicate 60 CHR ''='' @ [CHR 0x0A, CHR 0x0A]
     @ transcription"

definition save_transcription ::
  "world \<Rightarrow> string \<Rightarrow> string \<Rightarrow> string \<Rightarrow> disk \<Rightarrow> exn option \<times> disk" where
  "save_transcription w path transcription out d =
     (let base_name = fst (splitext (basename path));
          output_filename = base_name @ ''_transcription.txt'';
          output_path = os_path_join out output_filename
      in case write_file w output_path of
           Some e \<Rightarrow> (Some e, d)
         | None \<Rightarrow>
           (let d1 = d\<lparr>written := written d
                         @ [(output_path, transcription_text w path transcription)]\<rparr>
            in (console w (MsgSaved output_path), d1)))"

text \<open>
  \<open>_process_file\<close>. \<open>process_try\<close> is the body of the \<open>try\<close>: it stops at the first statement
  that raises and returns that exception with the state reached; \<open>process_file\<close> adds the
  handler and the \<open>finally\<close>. The exception in its result is one that leaves the method,
  which only the \<open>print\<close> of the handler can raise.
\<close>

fun process_try ::
  "world \<Rightarrow> item \<Rightarrow> real \<Rightarrow> processor \<times> service \<times> disk
     \<Rightarrow> (exn option \<times> processor \<times> service \<times> disk) option" where
  "process_try w it start_time (p, s, d) =
     (case console w (MsgProcessing (basename (file_path it))) of
        Some e \<Rightarrow> Some (Some e, p, s, d)
      | None \<Rightarrow>
        (case convert_to_wav w (file_path it) of
           Inl e \<Rightarrow> Some (Some e, p, s, d)
         | Inr None \<Rightarrow>
             Some (Some (ValueError ''Failed to convert audio to WAV format''), p, s, d)
         | Inr (Some wav_file_path) \<Rightarrow>
           (case transcribe w wav_file_path None s of
              None \<Rightarrow> None
            | Some (Inl e, s1) \<Rightarrow> Some (Some e, p, s1, d)
            | Some (Inr (transcription, error), s1) \<Rightarrow>
              (case (truthy error, error, transcription) of
                 (True, Some msg, _) \<Rightarrow>
                   Some (Some (ValueError (''Transcription error: '' @ msg)), p, s1, d)
               | (_, _, None) \<Rightarrow>
                   Some (Some (ValueError ''Empty transcription result''), p, s1, d)
               | (_, _, Some text) \<Rightarrow>
                   if text = [] \<or> strip text = [] then
                     Some (Some (ValueError ''Empty transcription result''), p, s1, d)
                   else
                     (case save_transcription w (file_path it) text (output_dir it) d of
                        (Some e, d1) \<Rightarrow> Some (Some e, p, s1, d1)
                      | (None, d1) \<Rightarrow>
                        (let process_time = file_end w - start_time;
                             p1 = p\<lparr>total_processed := total_processed p + 1,
                                    successful_processed := successful_processed p + 1,
                                    total_time := total_time p + process_time\<rparr>
                         in Some (console w (MsgProcessed (basename (file_path it))
                                                process_time),
                                  p1, s1, d1)))))))"

fun process_file ::
  "world \<Rightarrow> item \<Rightarrow> processor \<times> service \<times> disk
     \<Rightarrow> (exn option \<times> processor \<times> service \<times> disk) option" where
  "process_file w it (p, s, d) =
     (let start_time = file_start w;
          p0 = p\<lparr>current_file := Some (basename (file_path it))\<rparr>
      in case process_try w it start_time (p0, s, d) of
           None \<Rightarrow> None
         | Some (None, p1, s1, d1) \<Rightarrow> Some (None, p1\<lparr>current_file := None\<rparr>, s1, d1)
         | Some (Some e, p1, s1, d1) \<Rightarrow>
           (case console w (MsgFailed (basename (file_path it)) e) of
              Some e2 \<Rightarrow> Some (Some e2, p1\<lparr>current_file := None\<rparr>, s1, d1)
            | None \<Rightarrow>
                Some (None,
                      p1\<lparr>total_processed := total_processed p1 + 1,
                         failed_processed := failed_processed p1 + 1,
                         current_file := None\<rparr>, s1, d1)))"

text \<open>
  \<open>_process_queue\<close>. \<open>queue_step\<close> is one pass through the body of the \<open>while\<close>: the inner
  \<open>try\<close> around \<open>queue.get\<close> (an empty queue times out and the pass ends), the call of
  \<open>_process_file\<close>, and the outer handler. Its exception, if any, is one the outer handler's
  own \<open>print\<close> raised: it leaves the loop and ends the thread. \<open>queue.task_done()\<close> only
  counts finished tasks inside the queue object and is left out.
\<close>

fun queue_step ::
  "world \<Rightarrow> processor \<times> service \<times> disk
     \<Rightarrow> (exn option \<times> processor \<times> service \<times> disk) option" where
  "queue_step w (p, s, d) =
     (case queue p of
        [] \<Rightarrow> Some (None, p, s, d)
      | it # rest \<Rightarrow>
        (let p0 = p\<lparr>queue := rest, queue_size := int (length rest)\<rparr>
         in case process_file w it (p0, s, d) of
              None \<Rightarrow> None
            | Some (None, p1, s1, d1) \<Rightarrow> Some (None, p1, s1, d1)
            | Some (Some e, p1, s1, d1) \<Rightarrow>
              (case console w (MsgQueueError e) of
                 Some e2 \<Rightarrow> Some (Some e2, p1, s1, d1)
               | None \<Rightarrow>
                   Some (None, p1\<lparr>failed_processed := failed_processed p1 + 1\<rparr>, s1, d1))))"

text \<open>
  The loop itself, observed for as many passes as there are worlds in the list (one world
  per pass). Alone, the loop never clears \<open>is_running\<close>, so it ends only when the flag is
  found false (\<open>Returned\<close>) or an exception leaves it (\<open>Died\<close>); \<open>Looping\<close> says it is still
  going after the passes observed.
\<close>

datatype worker = Looping | Returned | Died exn

fun queue_loop ::
  "world list \<Rightarrow> processor \<times> service \<times> disk
     \<Rightarrow> (worker \<times> processor \<times> service \<times> disk) option" where
  "queue_loop [] psd = Some (Looping, psd)"
| "queue_loop (w # ws) psd =
     (if \<not> is_running (fst psd) then Some (Returned, psd)
      else case queue_step w psd of
             None \<Rightarrow> None
           | Some (Some e, psd1) \<Rightarrow> Some (Died e, psd1)
           | Some (None, psd1) \<Rightarrow> queue_loop ws psd1)"

definition process_queue ::
  "world \<Rightarrow> world list \<Rightarrow> processor \<times> service \<times> disk
     \<Rightarrow> (worker \<times> processor \<times> service \<times> disk) option" where
  "process_queue w0 ws psd =
     (case console w0 MsgThreadStarted of
        Some e \<Rightarrow> Some (Died e, psd)
      | None \<Rightarrow> queue_loop ws psd)"

declare add_directory.simps [simp del] add_file.simps [simp del]
  process_try.simps [simp del] process_file.simps [simp del] queue_step.simps [simp del]

text \<open>\<open>get_status\<close>, and the route \<open>GET /queue/status\<close> of app.py that serves it.\<close>

record status =
  st_is_running :: bool
  st_queue_size :: int
  st_current_file :: "string option"
  st_total_processed :: int
  st_successful_processed :: int
  st_failed_processed :: int
  st_total_time :: real
  st_average_time :: real

definition get_status :: "processor \<Rightarrow> status" where
  "get_status p =
     \<lparr>st_is_running = is_running p,
      st_queue_size = int (length (queue p)),
      st_current_file = current_file p,
      st_total_processed = total_processed p,
      st_successful_processed = successful_processed p,
      st_failed_processed = failed_processed p,
      st_total_time = total_time p,
      st_average_time =
        (if total_processed p > 0 then total_time p / of_int (total_processed p) else 0)\<rparr>"

datatype http_error = HTTPException nat string

definition get_queue_status :: "processor option \<Rightarrow> http_error + status" where
  "get_queue_status file_queue_processor =
     (case file_queue_processor of
        None \<Rightarrow> Inl (HTTPException 503 ''File queue processor not available'')
      | Some p \<Rightarrow> Inr (get_status p))"

section \<open>What the specification says of an item\<close>

text \<open>
  The specification sorts every dequeued item into one outcome (its section 4.4, steps 3
  to 5): the canonicalizer gives no usable path (\<open>ConversionFailed\<close>); the shared resource
  is not ready or the inference fails (\<open>TranscriptionFailed\<close>); the text is empty or blank
  (\<open>EmptyResult\<close>); the result cannot be written (\<open>PersistFailed\<close>); otherwise \<open>Success\<close>.
  \<open>spec_outcome\<close> follows these words, from the answers of the world alone. The resource is
  ready for an item when it was ready before (\<open>ready\<close>) or its load succeeds now.
  \<open>spec_transcription\<close> is the text in the specification's words for \<open>Transcribe\<close>: all
  emitted text segments concatenated, trimmed.
\<close>

datatype item_outcome =
  Success | ConversionFailed | TranscriptionFailed | EmptyResult | PersistFailed

definition spec_transcription :: "string list \<Rightarrow> string" where
  "spec_transcription segments = strip (concat segments)"

definition spec_output_path :: "item \<Rightarrow> string" where
  "spec_output_path it =
     os_path_join (output_dir it)
       (fst (splitext (basename (file_path it))) @ ''_transcription.txt'')"

definition ready_now :: "world \<Rightarrow> bool \<Rightarrow> bool" where
  "ready_now w ready = (ready \<or> (faster_whisper_available w \<and> construct w = None))"

definition spec_outcome :: "world \<Rightarrow> bool \<Rightarrow> item \<Rightarrow> item_outcome" where
  "spec_outcome w ready it =
     (case convert_to_wav w (file_path it) of
        Inl e \<Rightarrow> ConversionFailed
      | Inr None \<Rightarrow> ConversionFailed
      | Inr (Some wav) \<Rightarrow>
          if \<not> ready_now w ready then TranscriptionFailed
          else (case inference w wav None of
                  Inl e \<Rightarrow> TranscriptionFailed
                | Inr segments \<Rightarrow>
                    if spec_transcription segments = [] then EmptyResult
                    else if write_file w (spec_output_path it) \<noteq> None then PersistFailed
                    else Success))"

definition ready_after :: "world \<Rightarrow> bool \<Rightarrow> item \<Rightarrow> bool" where
  "ready_after w ready it =
     (case convert_to_wav w (file_path it) of
        Inr (Some wav) \<Rightarrow> ready_now w ready
      | _ \<Rightarrow> ready)"

fun spec_outcomes :: "world list \<Rightarrow> bool \<Rightarrow> item list \<Rightarrow> item_outcome list" where
  "spec_outcomes (w # ws) ready (it # its) =
     spec_outcome w ready it # spec_outcomes ws (ready_after w ready it) its"
| "spec_outcomes _ _ _ = []"

definition count_failed :: "item_outcome list \<Rightarrow> int" where
  "count_failed outs = int (length (filter (\<lambda>r. r \<noteq> Success) outs))"

definition count_succeeded :: "item_outcome list \<Rightarrow> int" where
  "count_succeeded outs = int (length (filter (\<lambda>r. r = Success) outs))"

text \<open>A world whose console accepts every message.\<close>

definition quiet :: "world \<Rightarrow> bool" where
  "quiet w = (\<forall>m. console w m = None)"

section \<open>Sample worlds and states\<close>

text \<open>
  \<open>calm_world\<close>: every call succeeds, the inference yields one segment, every clock
  interval lasts two seconds. The others change one answer of it.
\<close>

definition calm_world :: world where
  "calm_world =
     \<lparr>console = (\<lambda>m. None), faster_whisper_available = True, construct = None,
      inference = (\<lambda>path language. Inr ['' hello world'']),
      convert_to_wav = (\<lambda>path. Inr (Some path)),
      write_file = (\<lambda>path. None), path_exists = (\<lambda>path. True),
      os_walk = (\<lambda>path. []), makedirs = (\<lambda>path. None), put_time = (\<lambda>path. 0),
      load_start = 0, load_end = 2, transcribe_start = 0, transcribe_end = 2,
      file_start = 0, file_end = 2, now_stamp = ''2024-01-01 00:00:00''\<rparr>"

definition fresh_processor :: processor where
  "fresh_processor = init_processor ''./audio_input'' ''./output''"

definition empty_disk :: disk where
  "empty_disk = \<lparr>made_dirs = [], written = []\<rparr>"

definition ready_service :: service where
  "ready_service = init_service\<lparr>model := Some (WhisperModel ''small'' ''cpu'' ''int8'')\<rparr>"

definition sample_item :: "string \<Rightarrow> item" where
  "sample_item path = \<lparr>file_path = path, output_dir = ''/out'', added_at = 0\<rparr>"

text \<open>The converter gives up on the two files \<open>b.mp3\<close> and \<open>d.mp3\<close>.\<close>

definition picky_world :: world where
  "picky_world =
     calm_world\<lparr>convert_to_wav :=
       (\<lambda>path. if path = ''/in/b.mp3'' \<or> path = ''/in/d.mp3'' then Inr None
                else Inr (Some path))\<rparr>"

text \<open>The converter gives up on every file.\<close>

definition deaf_world :: world where
  "deaf_world = calm_world\<lparr>convert_to_wav := (\<lambda>path. Inr None)\<rparr>"

text \<open>
  The console cannot write a message that names the file being processed (a file name
  that the stream's encoding rejects); every other message is written.
\<close>

definition mute_world :: world where
  "mute_world =
     calm_world\<lparr>console :=
       (\<lambda>m. case m of
               MsgProcessing name \<Rightarrow> Some (OtherException ''codec cannot encode character'')
             | MsgFailed name e \<Rightarrow> Some (OtherException ''codec cannot encode character'')
             | _ \<Rightarrow> None)\<rparr>"

text \<open>The inference yields the two segments \<open>a\<close> and \<open>b\<close>.\<close>

definition two_segment_world :: world where
  "two_segment_world = calm_world\<lparr>inference := (\<lambda>path language. Inr [''a'', ''b''])\<rparr>"

text \<open>The inference raises.\<close>

definition broken_inference_world :: world where
  "broken_inference_world =
     calm_world\<lparr>inference := (\<lambda>path language. Inl (OtherException ''out of memory''))\<rparr>"

text \<open>The model constructor raises.\<close>

definition exhausted_world :: world where
  "exhausted_world = calm_world\<lparr>construct := Some (OtherException ''out of memory'')\<rparr>"

text \<open>A directory that exists and holds two files, none of them audio.\<close>

definition notes_world :: world where
  "notes_world =
     calm_world\<lparr>os_walk := (\<lambda>path. [(path, [], [''notes.txt'', ''cover.jpg''])])\<rparr>"

text \<open>A directory tree with three audio files among five.\<close>

definition music_world :: world where
  "music_world =
     calm_world\<lparr>os_walk :=
       (\<lambda>path. [(path, [''sub''], [''a.MP3'', ''notes.txt'']),
                 (path @ ''/sub'', [], [''b.ogg'', ''c.tar.gz'', ''d.Wav''])])\<rparr>"

text \<open>No path exists.\<close>

definition barren_world :: world where
  "barren_world = calm_world\<lparr>path_exists := (\<lambda>path. False)\<rparr>"

text \<open>
  \<open>heard w it\<close> is the text the service returns for the item in world \<open>w\<close> once the
  resource is ready; \<open>counters\<close> reads the three counters of the statistics.
\<close>

definition heard :: "world \<Rightarrow> item \<Rightarrow> string" where
  "heard w it =
     (case convert_to_wav w (file_path it) of
        Inr (Some wav) \<Rightarrow>
          (case inference w wav None of Inr segs \<Rightarrow> strip (collect [] segs) | Inl e \<Rightarrow> [])
      | _ \<Rightarrow> [])"

definition counters :: "processor \<Rightarrow> int \<times> int \<times> int" where
  "counters p = (total_processed p, successful_processed p, failed_processed p)"

definition processor_after ::
  "('r \<times> processor \<times> service \<times> disk) option \<Rightarrow> processor option" where
  "processor_after r = map_option (\<lambda>x. fst (snd x)) r"

text \<open>Five queued files, and a running processor that holds them.\<close>

definition five_items :: "item list" where
  "five_items = map sample_item
     [''/in/a.mp3'', ''/in/b.mp3'', ''/in/c.mp3'', ''/in/d.mp3'', ''/in/e.mp3'']"

definition busy_processor :: processor where
  "busy_processor = fresh_processor\<lparr>queue := five_items, is_running := True,
     processing_thread := True, queue_size := 5\<rparr>"

text \<open>A running processor with one queued file.\<close>

definition one_item_processor :: processor where
  "one_item_processor = fresh_processor\<lparr>queue := [sample_item ''/in/a.mp3''],
     is_running := True, processing_thread := True, queue_size := 1\<rparr>"


text \<open>The library could not be imported when the module was loaded.\<close>

definition bare_world :: world where
  "bare_world = calm_world\<lparr>faster_whisper_available := False\<rparr>"

text \<open>
  The console is closed: every \<open>print\<close> raises; and the converter gives up on every file.
\<close>

definition stifled_world :: world where
  "stifled_world =
     deaf_world\<lparr>console := (\<lambda>m. Some (OtherException ''I/O operation on closed file''))\<rparr>"

section \<open>Strings and paths\<close>









section \<open>The service and the worker in a quiet world\<close>

lemma wait_not_loading: "\<not> loading s \<Longrightarrow> wait_while_loading s = Some s"
  by (subst wait_while_loading.simps) simp

lemma wait_returns_idle:
  assumes "wait_while_loading s = Some r"
  shows "\<not> loading s"
  by (rule wait_while_loading.raw_induct [where P = "\<lambda>s r. \<not> loading s", OF _ assms])
     (auto split: if_splits)

lemma wait_closed: "wait_while_loading s = (if loading s then None else Some s)"
proof (cases "loading s")
  case True
  then show ?thesis using wait_returns_idle [of s] by (cases "wait_while_loading s") auto
next
  case False
  then show ?thesis by (simp add: wait_not_loading)
qed

lemma collect_concat: "collect acc segs = acc @ concat (map (\<lambda>t. t @ '' '') segs)"
  by (induction segs arbitrary: acc) simp_all

lemma strip_empty_iff: "strip t = [] \<longleftrightarrow> (\<forall>c\<in>set t. py_isspace c)"
proof
  assume "strip t = []"
  then have a: "\<forall>c\<in>set (dropWhile py_isspace t). py_isspace c"
    by (simp add: strip_def)
  have "dropWhile py_isspace t = []"
  proof (rule ccontr)
    assume n: "dropWhile py_isspace t \<noteq> []"
    then have "\<not> py_isspace (hd (dropWhile py_isspace t))" by (rule hd_dropWhile)
    moreover have "hd (dropWhile py_isspace t) \<in> set (dropWhile py_isspace t)" using n by simp
    ultimately show False using a by blast
  qed
  then show "\<forall>c\<in>set t. py_isspace c" by simp
next
  assume "\<forall>c\<in>set t. py_isspace c"
  then have h: "dropWhile py_isspace t = []" by simp
  show "strip t = []" unfolding strip_def h by simp
qed

lemma strip_idem: "strip (strip t) = strip t"
proof -
  define a where "a = dropWhile py_isspace t"
  define b where "b = dropWhile py_isspace (rev a)"
  have u: "strip t = rev b" by (simp add: strip_def a_def b_def)
  have k: "dropWhile py_isspace (rev b) = rev b"
  proof (cases "b = []")
    case True
    then show ?thesis by simp
  next
    case False
    have "rev a = takeWhile py_isspace (rev a) @ b" by (simp add: b_def)
    then have "a = rev b @ rev (takeWhile py_isspace (rev a))"
      by (metis rev_append rev_rev_ident)
    then have "hd (rev b) = hd a" using False by (metis hd_append2 rev_is_Nil_conv)
    moreover have "a \<noteq> []" using False b_def by auto
    then have "\<not> py_isspace (hd a)" unfolding a_def by (rule hd_dropWhile)
    ultimately show ?thesis by (simp add: dropWhile_eq_self_iff)
  qed
  have "strip (rev b) = rev (dropWhile py_isspace b)"
    unfolding strip_def k by simp
  also have "\<dots> = rev b" by (simp add: b_def)
  finally show ?thesis by (simp add: u)
qed

lemma space_is_space: "py_isspace CHR '' ''"
  by (simp add: py_isspace_def)

lemma collect_blank_iff: "strip (collect [] segs) = [] \<longleftrightarrow> spec_transcription segs = []"
  by (auto simp: collect_concat strip_empty_iff spec_transcription_def space_is_space)

lemma load_model_quiet:
  assumes "quiet w" "\<not> loading s"
  shows "load_model w s =
     Some (Inr (ready_now w (model s \<noteq> None)),
           if model s = None \<and> ready_now w False
           then s\<lparr>model := Some (WhisperModel (model_size s) (device s) (compute_type s))\<rparr>
           else s)"
  using assms
  by (auto simp: load_model_def load_try_def quiet_def ready_now_def Let_def split: option.splits)

lemma transcribe_quiet:
  assumes "quiet w" "\<not> loading s"
  shows "\<exists>s1. transcribe w f l s =
     Some (Inr (if \<not> ready_now w (model s \<noteq> None) then (None, Some ''Model not available'')
                else case inference w f l of
                       Inl e \<Rightarrow> (None, Some (str_exn e))
                     | Inr segs \<Rightarrow> (Some (strip (collect [] segs)), None)), s1)
     \<and> \<not> loading s1 \<and> (model s1 \<noteq> None) = ready_now w (model s \<noteq> None)"
  using assms
  by (auto simp: transcribe_def load_model_quiet ready_now_def Let_def split: sum.splits)


lemma process_try_quiet:
  assumes q: "quiet w" and l: "\<not> loading s"
  shows "\<exists>r s' d'. process_try w it t0 (p, s, d) = Some (r, 
            (if spec_outcome w (model s \<noteq> None) it = Success
             then p\<lparr>total_processed := total_processed p + 1,
                    successful_processed := successful_processed p + 1,
                    total_time := total_time p + (file_end w - t0)\<rparr>
             else p), s', d')
        \<and> (r = None) = (spec_outcome w (model s \<noteq> None) it = Success)
        \<and> \<not> loading s' \<and> (model s' \<noteq> None) = ready_after w (model s \<noteq> None) it
        \<and> made_dirs d' = made_dirs d
        \<and> written d' = written d @
             (if spec_outcome w (model s \<noteq> None) it = Success
              then [(spec_output_path it, transcription_text w (file_path it) (heard w it))]
              else [])"
proof (cases "convert_to_wav w (file_path it)")
  case (Inl e)
  then show ?thesis using q l
    by (simp add: process_try.simps quiet_def spec_outcome_def ready_after_def)
next
  case (Inr v)
  show ?thesis
  proof (cases v)
    case None
    then show ?thesis using Inr q l
      by (simp add: process_try.simps quiet_def spec_outcome_def ready_after_def)
  next
    case (Some wav)
    from transcribe_quiet [OF q l, of wav None] obtain s1 where
      t: "transcribe w wav None s =
          Some (Inr (if \<not> ready_now w (model s \<noteq> None) then (None, Some ''Model not available'')
                else case inference w wav None of
                       Inl e \<Rightarrow> (None, Some (str_exn e))
                     | Inr segs \<Rightarrow> (Some (strip (collect [] segs)), None)), s1)"
      and s1: "\<not> loading s1" "(model s1 \<noteq> None) = ready_now w (model s \<noteq> None)"
      by blast
    show ?thesis
    proof (cases "ready_now w (model s \<noteq> None)")
      case False
      then show ?thesis using Inr Some q t s1
        by (simp add: process_try.simps quiet_def spec_outcome_def ready_after_def)
    next
      case True
      show ?thesis
      proof (cases "inference w wav None")
        case (Inl e)
        then show ?thesis using Inr Some q t s1 True
          by (cases "str_exn e = []")
             (simp_all add: process_try.simps quiet_def spec_outcome_def ready_after_def)
      next
        case (Inr segs)
        then show ?thesis using \<open>convert_to_wav w (file_path it) = Inr v\<close> Some q t s1 True
          by (simp add: process_try.simps quiet_def spec_outcome_def ready_after_def
                collect_blank_iff strip_idem save_transcription_def spec_output_path_def heard_def Let_def
                split: option.splits)
      qed
    qed
  qed
qed


lemma process_file_quiet:
  assumes q: "quiet w" and l: "\<not> loading s"
  shows "\<exists>p' s' d'. process_file w it (p, s, d) = Some (None, p', s', d')
        \<and> queue p' = queue p \<and> is_running p' = is_running p
        \<and> queue_size p' = queue_size p \<and> current_file p' = None
        \<and> total_processed p' = total_processed p + 1
        \<and> successful_processed p' = successful_processed p
              + (if spec_outcome w (model s \<noteq> None) it = Success then 1 else 0)
        \<and> failed_processed p' = failed_processed p
              + (if spec_outcome w (model s \<noteq> None) it = Success then 0 else 1)
        \<and> total_time p' = total_time p
              + (if spec_outcome w (model s \<noteq> None) it = Success
                 then file_end w - file_start w else 0)
        \<and> \<not> loading s' \<and> (model s' \<noteq> None) = ready_after w (model s \<noteq> None) it
        \<and> made_dirs d' = made_dirs d
        \<and> written d' = written d @
             (if spec_outcome w (model s \<noteq> None) it = Success
              then [(spec_output_path it, transcription_text w (file_path it) (heard w it))]
              else [])"
proof -
  from process_try_quiet [OF q l, of it "file_start w"
         "p\<lparr>current_file := Some (basename (file_path it))\<rparr>" d]
  obtain r s' d' where
    t: "process_try w it (file_start w) (p\<lparr>current_file := Some (basename (file_path it))\<rparr>, s, d)
        = Some (r,
            (if spec_outcome w (model s \<noteq> None) it = Success
             then p\<lparr>current_file := Some (basename (file_path it)),
                    total_processed := total_processed p + 1,
                    successful_processed := successful_processed p + 1,
                    total_time := total_time p + (file_end w - file_start w)\<rparr>
             else p\<lparr>current_file := Some (basename (file_path it))\<rparr>), s', d')"
    and r: "(r = None) = (spec_outcome w (model s \<noteq> None) it = Success)"
    and rest: "\<not> loading s'" "(model s' \<noteq> None) = ready_after w (model s \<noteq> None) it"
       "made_dirs d' = made_dirs d"
       "written d' = written d @
             (if spec_outcome w (model s \<noteq> None) it = Success
              then [(spec_output_path it, transcription_text w (file_path it) (heard w it))]
              else [])"
    by auto
  show ?thesis
  proof (cases r)
    case None
    then show ?thesis using t r rest q
      by (simp add: process_file.simps Let_def)
  next
    case (Some e)
    then show ?thesis using t r rest q
      by (simp add: process_file.simps Let_def quiet_def)
  qed
qed

lemma queue_step_quiet:
  assumes q: "quiet w" and l: "\<not> loading s" and nonempty: "queue p = it # rest"
  shows "\<exists>p' s' d'. queue_step w (p, s, d) = Some (None, p', s', d')
        \<and> queue p' = rest \<and> is_running p' = is_running p
        \<and> total_processed p' = total_processed p + 1
        \<and> successful_processed p' = successful_processed p
              + (if spec_outcome w (model s \<noteq> None) it = Success then 1 else 0)
        \<and> failed_processed p' = failed_processed p
              + (if spec_outcome w (model s \<noteq> None) it = Success then 0 else 1)
        \<and> total_time p' = total_time p
              + (if spec_outcome w (model s \<noteq> None) it = Success
                 then file_end w - file_start w else 0)
        \<and> \<not> loading s' \<and> (model s' \<noteq> None) = ready_after w (model s \<noteq> None) it"
proof -
  from process_file_quiet [OF q l, of it "p\<lparr>queue := rest, queue_size := int (length rest)\<rparr>" d]
  obtain p' s' d' where
    "process_file w it (p\<lparr>queue := rest, queue_size := int (length rest)\<rparr>, s, d)
       = Some (None, p', s', d')"
    "queue p' = rest" "is_running p' = is_running p"
    "total_processed p' = total_processed p + 1"
    "successful_processed p' = successful_processed p
              + (if spec_outcome w (model s \<noteq> None) it = Success then 1 else 0)"
    "failed_processed p' = failed_processed p
              + (if spec_outcome w (model s \<noteq> None) it = Success then 0 else 1)"
    "total_time p' = total_time p
              + (if spec_outcome w (model s \<noteq> None) it = Success
                 then file_end w - file_start w else 0)"
    "\<not> loading s'" "(model s' \<noteq> None) = ready_after w (model s \<noteq> None) it"
    by auto
  then show ?thesis using nonempty
    by (simp add: queue_step.simps Let_def)
qed

lemma queue_loop_drains:
  assumes "\<forall>w\<in>set ws. quiet w" "\<not> loading s" "is_running p" "length ws = length (queue p)"
  shows "\<exists>p' s' d'. queue_loop ws (p, s, d) = Some (Looping, p', s', d')
        \<and> queue p' = [] \<and> is_running p' \<and> \<not> loading s'
        \<and> total_processed p' = total_processed p + int (length (queue p))
        \<and> successful_processed p' = successful_processed p
              + count_succeeded (spec_outcomes ws (model s \<noteq> None) (queue p))
        \<and> failed_processed p' = failed_processed p
              + count_failed (spec_outcomes ws (model s \<noteq> None) (queue p))"
  using assms
proof (induction ws arbitrary: p s d)
  case Nil
  then show ?case by (simp add: count_succeeded_def count_failed_def)
next
  case (Cons w ws)
  then obtain it rest where qp: "queue p = it # rest"
    by (cases "queue p") auto
  from Cons.prems have q: "quiet w" and l: "\<not> loading s" by simp_all
  from queue_step_quiet [OF q l qp, of d] obtain p1 s1 d1 where
    step: "queue_step w (p, s, d) = Some (None, p1, s1, d1)"
    and p1: "queue p1 = rest" "is_running p1 = is_running p"
      "total_processed p1 = total_processed p + 1"
      "successful_processed p1 = successful_processed p
              + (if spec_outcome w (model s \<noteq> None) it = Success then 1 else 0)"
      "failed_processed p1 = failed_processed p
              + (if spec_outcome w (model s \<noteq> None) it = Success then 0 else 1)"
    and s1: "\<not> loading s1" "(model s1 \<noteq> None) = ready_after w (model s \<noteq> None) it"
    by auto
  have "\<forall>w\<in>set ws. quiet w" "is_running p1" "length ws = length (queue p1)"
    using Cons.prems p1 qp by simp_all
  from Cons.IH [OF this(1) s1(1) this(2) this(3), of d1] obtain p' s' d' where
    "queue_loop ws (p1, s1, d1) = Some (Looping, p', s', d')"
    "queue p' = []" "is_running p'" "\<not> loading s'"
    "total_processed p' = total_processed p1 + int (length (queue p1))"
    "successful_processed p' = successful_processed p1
              + count_succeeded (spec_outcomes ws (model s1 \<noteq> None) (queue p1))"
    "failed_processed p' = failed_processed p1
              + count_failed (spec_outcomes ws (model s1 \<noteq> None) (queue p1))"
    by auto
  then show ?case using step p1 s1 qp Cons.prems(3)
    by (simp add: count_succeeded_def count_failed_def)
qed

lemma load_model_stats:
  "load_model w s = Some (r, s1) \<Longrightarrow>
     whisper_total_processed s1 = whisper_total_processed s \<and>
     whisper_total_time s1 = whisper_total_time s \<and>
     whisper_errors s1 = whisper_errors s \<and>
     whisper_average_time s1 = whisper_average_time s"
  by (auto simp: load_model_def load_try_def Let_def wait_closed split: if_splits option.splits prod.splits)

lemma load_model_False_same:
  assumes "\<not> loading s" "load_model w s = Some (Inr False, s1)"
  shows "s1 = s \<and> model s = None"
  using assms
  by (auto simp: load_model_def load_try_def Let_def  split: if_splits option.splits prod.splits)


lemma process_queue_drains:
  assumes "quiet w0" "\<forall>w\<in>set ws. quiet w" "\<not> loading s" "is_running p"
    "length ws = length (queue p)"
  shows "\<exists>p' s' d'. process_queue w0 ws (p, s, d) = Some (Looping, p', s', d')
        \<and> queue p' = [] \<and> is_running p'
        \<and> total_processed p' = total_processed p + int (length (queue p))
        \<and> successful_processed p' = successful_processed p
              + count_succeeded (spec_outcomes ws (model s \<noteq> None) (queue p))
        \<and> failed_processed p' = failed_processed p
              + count_failed (spec_outcomes ws (model s \<noteq> None) (queue p))"
proof -
  from queue_loop_drains [OF assms(2-5), of d] obtain p' s' d' where
    "queue_loop ws (p, s, d) = Some (Looping, p', s', d')"
    "queue p' = []" "is_running p'"
    "total_processed p' = total_processed p + int (length (queue p))"
    "successful_processed p' = successful_processed p
              + count_succeeded (spec_outcomes ws (model s \<noteq> None) (queue p))"
    "failed_processed p' = failed_processed p
              + count_failed (spec_outcomes ws (model s \<noteq> None) (queue p))"
    by blast
  then show ?thesis using assms(1) by (simp add: process_queue_def quiet_def)
qed

lemma process_file_keeps_invariant:
  assumes "process_file w it (p, s, d) = Some (r, p', s', d')"
    "successful_processed p + failed_processed p = total_processed p"
  shows "successful_processed p' + failed_processed p' = total_processed p'"
  using assms
  by (auto simp: process_file.simps process_try.simps save_transcription_def Let_def
        split: option.splits sum.splits prod.splits if_splits bool.splits)

section \<open>The service and the worker, whatever the console does\<close>

lemma load_model_returns:
  assumes "\<not> loading s"
  shows "\<exists>r s'. load_model w s = Some (r, s') \<and> \<not> loading s'
           \<and> (r = Inr True \<longrightarrow> ready_now w (model s \<noteq> None))"
  using assms
  by (auto simp: load_model_def load_try_def ready_now_def Let_def split: option.splits)

lemma transcribe_returns:
  assumes "\<not> loading s"
  shows "\<exists>r s'. transcribe w f l s = Some (r, s') \<and> \<not> loading s'
           \<and> (\<forall>t e. r = Inr (Some t, e) \<longrightarrow>
                 ready_now w (model s \<noteq> None)
               \<and> (\<exists>segs. inference w f l = Inr segs \<and> t = strip (collect [] segs)))"
proof -
  from load_model_returns [OF assms, of w] obtain r1 s1 where
    l: "load_model w s = Some (r1, s1)" "\<not> loading s1"
       "r1 = Inr True \<longrightarrow> ready_now w (model s \<noteq> None)"
    by blast
  show ?thesis
  proof (cases r1)
    case (Inl e)
    then show ?thesis using l by (simp add: transcribe_def)
  next
    case (Inr b)
    then show ?thesis using l
      by (cases b; cases "inference w f l") (simp_all add: transcribe_def Let_def)
  qed
qed

lemma process_try_returns:
  assumes "\<not> loading s"
  shows "\<exists>r p' s' d'. process_try w it t0 (p, s, d) = Some (r, p', s', d') \<and> \<not> loading s'
           \<and> (p' = p \<or>
                (p' = p\<lparr>total_processed := total_processed p + 1,
                         successful_processed := successful_processed p + 1,
                         total_time := total_time p + (file_end w - t0)\<rparr>
                 \<and> spec_outcome w (model s \<noteq> None) it = Success))"
proof (cases "console w (MsgProcessing (basename (file_path it)))")
  case (Some e)
  then show ?thesis using assms by (simp add: process_try.simps)
next
  case None
  note quiet_start = None
  show ?thesis
  proof (cases "convert_to_wav w (file_path it)")
    case (Inl e)
    then show ?thesis using assms quiet_start by (simp add: process_try.simps)
  next
    case (Inr v)
    note conv = Inr
    show ?thesis
    proof (cases v)
      case None
      then show ?thesis using assms quiet_start conv by (simp add: process_try.simps)
    next
      case (Some wav)
      from transcribe_returns [OF assms, of w wav None] obtain r1 s1 where
        t: "transcribe w wav None s = Some (r1, s1)" "\<not> loading s1"
           "\<forall>t e. r1 = Inr (Some t, e) \<longrightarrow>
                 ready_now w (model s \<noteq> None)
               \<and> (\<exists>segs. inference w wav None = Inr segs \<and> t = strip (collect [] segs))"
        by blast
      show ?thesis
      proof (cases r1)
        case (Inl e)
        then show ?thesis using quiet_start conv Some t by (simp add: process_try.simps)
      next
        case (Inr pair)
        obtain tr er where pair: "pair = (tr, er)" by (cases pair)
        show ?thesis
        proof (cases tr)
          case None
          then show ?thesis using quiet_start conv Some t Inr pair
            by (cases er) (simp_all add: process_try.simps split: bool.splits)
        next
          case (Some said)
          with t(3) Inr pair obtain segs where
            ok: "ready_now w (model s \<noteq> None)" "inference w wav None = Inr segs"
                "said = strip (collect [] segs)"
            by blast
          have blank: "(strip said = []) = (spec_transcription segs = [])"
            by (simp add: ok(3) strip_idem collect_blank_iff)
          have blank2: "(said = []) = (spec_transcription segs = [])"
            by (simp add: ok(3) collect_blank_iff)
          show ?thesis using quiet_start conv \<open>v = Some wav\<close> t(1,2) Inr pair Some ok blank blank2
            by (cases er)
               (auto simp: process_try.simps save_transcription_def spec_outcome_def
                  spec_output_path_def Let_def split: option.splits bool.splits)
        qed
      qed
    qed
  qed
qed

lemma process_file_returns:
  assumes "\<not> loading s"
  shows "\<exists>r p' s' d'. process_file w it (p, s, d) = Some (r, p', s', d') \<and> \<not> loading s'
           \<and> queue p' = queue p \<and> is_running p' = is_running p
           \<and> ((successful_processed p' = successful_processed p \<and> total_time p' = total_time p)
              \<or> (successful_processed p' = successful_processed p + 1
                  \<and> total_time p' = total_time p + (file_end w - file_start w)
                  \<and> spec_outcome w (model s \<noteq> None) it = Success))"
proof -
  let ?p0 = "p\<lparr>current_file := Some (basename (file_path it))\<rparr>"
  from process_try_returns [OF assms, of w it "file_start w" ?p0 d]
  obtain r p1 s1 d1 where
    t: "process_try w it (file_start w) (?p0, s, d) = Some (r, p1, s1, d1)" "\<not> loading s1"
       "p1 = ?p0 \<or>
         (p1 = ?p0\<lparr>total_processed := total_processed ?p0 + 1,
                    successful_processed := successful_processed ?p0 + 1,
                    total_time := total_time ?p0 + (file_end w - file_start w)\<rparr>
          \<and> spec_outcome w (model s \<noteq> None) it = Success)"
    by blast
  show ?thesis
  proof (cases r)
    case None
    then show ?thesis using t by (auto simp: process_file.simps Let_def)
  next
    case (Some e)
    then show ?thesis using t
      by (cases "console w (MsgFailed (basename (file_path it)) e)")
         (auto simp: process_file.simps Let_def)
  qed
qed

lemma queue_step_survives:
  assumes "\<forall>e. console w (MsgQueueError e) = None" "\<not> loading s" "queue p = it # rest"
  shows "\<exists>p' s' d'. queue_step w (p, s, d) = Some (None, p', s', d')
           \<and> queue p' = rest \<and> is_running p' = is_running p \<and> \<not> loading s'"
proof -
  from process_file_returns [OF assms(2), of w it "p\<lparr>queue := rest, queue_size := int (length rest)\<rparr>" d]
  obtain r p1 s1 d1 where
    "process_file w it (p\<lparr>queue := rest, queue_size := int (length rest)\<rparr>, s, d)
       = Some (r, p1, s1, d1)"
    "\<not> loading s1" "queue p1 = rest" "is_running p1 = is_running p"
    by auto
  then show ?thesis using assms(1,3)
    by (cases r) (simp_all add: queue_step.simps Let_def)
qed

lemma queue_loop_survives:
  assumes "\<forall>w\<in>set ws. \<forall>e. console w (MsgQueueError e) = None" "\<not> loading s"
    "is_running p" "length ws = length (queue p)"
  shows "\<exists>p' s' d'. queue_loop ws (p, s, d) = Some (Looping, p', s', d')
           \<and> queue p' = [] \<and> is_running p' \<and> \<not> loading s'"
  using assms
proof (induction ws arbitrary: p s d)
  case Nil
  then show ?case by simp
next
  case (Cons w ws)
  then obtain it rest where qp: "queue p = it # rest"
    by (cases "queue p") auto
  from Cons.prems have h: "\<forall>e. console w (MsgQueueError e) = None" by simp
  from queue_step_survives [OF h Cons.prems(2) qp, of d] obtain p1 s1 d1 where
    step: "queue_step w (p, s, d) = Some (None, p1, s1, d1)"
    and p1: "queue p1 = rest" "is_running p1 = is_running p" "\<not> loading s1"
    by blast
  have "\<forall>w\<in>set ws. \<forall>e. console w (MsgQueueError e) = None" "is_running p1"
    "length ws = length (queue p1)"
    using Cons.prems p1 qp by simp_all
  from Cons.IH [OF this(1) p1(3) this(2) this(3), of d1] obtain p' s' d' where
    "queue_loop ws (p1, s1, d1) = Some (Looping, p', s', d')"
    "queue p' = []" "is_running p'" "\<not> loading s'"
    by blast
  then show ?case using step Cons.prems(3) by simp
qed

section \<open>The directory scanner\<close>

lemma scan_files_set:
  "set (scan_files root_dir files) =
     {os_path_join root_dir file | file.
        file \<in> set files \<and> lower (path_suffix file) \<in> set supported_extensions}"
  by (induction files) (auto simp: Let_def)

lemma scan_files_count:
  "length (scan_files root_dir files) =
     length (filter (\<lambda>file. lower (path_suffix file) \<in> set supported_extensions) files)"
  by (induction files) (simp_all add: Let_def)

lemma music_scan:
  "find_audio_files music_world ''/in'' = [''/in/a.MP3'', ''/in/sub/b.ogg'', ''/in/sub/d.Wav'']"
  by code_simp

lemma add_directory_counts:
  assumes "path_exists w source_dir" "quiet w"
    "makedirs w (case out of None \<Rightarrow> default_output_dir p | Some x \<Rightarrow> x) = None"
    "find_audio_files w source_dir \<noteq> []"
  shows "\<exists>p' d'. add_directory w source_dir out (p, d)
             = (Inr (Some (int (length (find_audio_files w source_dir)))), p', d')
         \<and> queue p' = queue p @ put_all w (case out of None \<Rightarrow> default_output_dir p | Some x \<Rightarrow> x)
                                   (find_audio_files w source_dir)
         \<and> queue_size p' = int (length (queue p')) \<and>
           length (queue p') = length (queue p) + length (find_audio_files w source_dir)"
  using assms by (simp add: add_directory.simps quiet_def Let_def put_all_def)

lemma add_directory_empty:
  assumes "path_exists w source_dir" "quiet w"
    "makedirs w (case out of None \<Rightarrow> default_output_dir p | Some x \<Rightarrow> x) = None"
    "find_audio_files w source_dir = []"
  shows "\<exists>d'. add_directory w source_dir out (p, d) = (Inr None, p, d')"
  using assms by (simp add: add_directory.simps quiet_def Let_def)

section \<open>Facts of the sample worlds\<close>

lemma quiet_calm: "quiet calm_world"
  by (simp add: quiet_def calm_world_def)

lemma quiet_picky: "quiet picky_world"
  by (simp add: quiet_def picky_world_def calm_world_def)

lemma quiet_deaf: "quiet deaf_world"
  by (simp add: quiet_def deaf_world_def calm_world_def)

lemma picky_outcomes:
  "spec_outcomes (replicate 5 picky_world) False five_items
     = [Success, ConversionFailed, Success, ConversionFailed, Success]"
  by (simp add: five_items_def sample_item_def spec_outcome_def ready_after_def ready_now_def
        picky_world_def calm_world_def spec_transcription_def strip_def py_isspace_def
        numeral_eq_Suc)

lemma calm_success: "spec_outcome calm_world ready (sample_item ''/in/a.mp3'') = Success"
  by (simp add: sample_item_def spec_outcome_def ready_now_def
        calm_world_def spec_transcription_def strip_def py_isspace_def)

lemma deaf_failure:
  "spec_outcome deaf_world ready (sample_item ''/in/a.mp3'') = ConversionFailed"
  by (simp add: sample_item_def spec_outcome_def deaf_world_def calm_world_def)

section \<open>The claims\<close>

text \<open>
  C6, as stated, fails: when the library could not be imported, \<open>_load_model\<close> returns
  \<open>False\<close> and leaves the state as it was, whether the constructor would succeed or not;
  no later call reaches the constructor.
\<close>

theorem missing_library_is_permanent_counterexample:
  "construct bare_world = None \<and>
   load_model bare_world init_service = Some (Inr False, init_service) \<and>
   load_model (bare_world\<lparr>construct := Some (OtherException ''out of memory'')\<rparr>) init_service
     = Some (Inr False, init_service)"
  by (simp add: load_model_def bare_world_def calm_world_def init_service_def)

text \<open>
  C6, amended. With the library importable and no load in progress, a load that returns
  \<open>False\<close> leaves the service as it was before the call, the model absent and the loading
  flag clear. Every later call then runs the constructor again: it returns, it returns
  \<open>True\<close> exactly when the constructor and the two progress messages succeed, the model
  is then set, and a call that returns \<open>False\<close> again leaves that same state. With the
  library not importable, a call on a service without model leaves the state as it is
  and returns \<open>False\<close> (or raises what the \<open>print\<close> of the notice raised), whatever the
  constructor would do.
\<close>

theorem failed_load_is_retried:
  "(faster_whisper_available w \<and> \<not> loading s \<and> load_model w s = Some (Inr False, s') \<longrightarrow>
      s' = s \<and> model s' = None \<and> \<not> loading s' \<and>
      (\<forall>w'. faster_whisper_available w' \<longrightarrow>
         (\<exists>r s''. load_model w' s' = Some (r, s'') \<and> \<not> loading s''
            \<and> ((r = Inr True) =
                 (construct w' = None
                  \<and> console w' (MsgLoading (model_size s')) = None
                  \<and> console w' (MsgLoaded (load_end w' - load_start w')) = None))
            \<and> (r = Inr True \<longrightarrow>
                 model s'' = Some (WhisperModel (model_size s') (device s') (compute_type s')))
            \<and> (r = Inr False \<longrightarrow> s'' = s'))))
   \<and> (\<not> faster_whisper_available w \<and> model s = None \<longrightarrow>
        load_model w s =
          Some (case console w MsgNotAvailable of None \<Rightarrow> Inr False | Some e \<Rightarrow> Inl e, s))"
proof (rule conjI; rule impI)
  assume h: "faster_whisper_available w \<and> \<not> loading s \<and> load_model w s = Some (Inr False, s')"
  with load_model_False_same [of s w s'] have same: "s' = s" and none: "model s = None"
    by simp_all
  from h have idle: "\<not> loading s" by simp
  have retry: "\<exists>r s''. load_model w' s = Some (r, s'') \<and> \<not> loading s''
            \<and> ((r = Inr True) =
                 (construct w' = None
                  \<and> console w' (MsgLoading (model_size s)) = None
                  \<and> console w' (MsgLoaded (load_end w' - load_start w')) = None))
            \<and> (r = Inr True \<longrightarrow>
                 model s'' = Some (WhisperModel (model_size s) (device s) (compute_type s)))
            \<and> (r = Inr False \<longrightarrow> s'' = s)"
    if "faster_whisper_available w'" for w'
    using that idle none
    by (auto simp: load_model_def load_try_def Let_def split: option.splits)
  show "s' = s \<and> model s' = None \<and> \<not> loading s' \<and>
      (\<forall>w'. faster_whisper_available w' \<longrightarrow>
         (\<exists>r s''. load_model w' s' = Some (r, s'') \<and> \<not> loading s''
            \<and> ((r = Inr True) =
                 (construct w' = None
                  \<and> console w' (MsgLoading (model_size s')) = None
                  \<and> console w' (MsgLoaded (load_end w' - load_start w')) = None))
            \<and> (r = Inr True \<longrightarrow>
                 model s'' = Some (WhisperModel (model_size s') (device s') (compute_type s')))
            \<and> (r = Inr False \<longrightarrow> s'' = s')))"
    unfolding same using none idle retry by blast
next
  assume "\<not> faster_whisper_available w \<and> model s = None"
  then show "load_model w s =
          Some (case console w MsgNotAvailable of None \<Rightarrow> Inr False | Some e \<Rightarrow> Inl e, s)"
    by (simp add: load_model_def split: option.splits)
qed

text \<open>
  A load that fails in \<open>exhausted_world\<close>, retried with success in \<open>calm_world\<close>; and a
  load without the library.
\<close>

theorem failed_load_is_retried_witness:
  "faster_whisper_available exhausted_world \<and> \<not> loading init_service \<and>
   load_model exhausted_world init_service = Some (Inr False, init_service) \<and>
   faster_whisper_available calm_world \<and>
   load_model calm_world init_service = Some (Inr True, ready_service) \<and>
   \<not> faster_whisper_available bare_world \<and> model init_service = None \<and>
   load_model bare_world init_service = Some (Inr False, init_service)"
proof -
  have a: "faster_whisper_available exhausted_world"
    by (simp add: exhausted_world_def calm_world_def)
  have b: "\<not> loading init_service" by (simp add: init_service_def)
  have c: "load_model exhausted_world init_service = Some (Inr False, init_service)"
    by (simp add: load_model_def load_try_def exhausted_world_def calm_world_def
          init_service_def)
  have d: "faster_whisper_available calm_world" by (simp add: calm_world_def)
  have e: "construct calm_world = None
           \<and> console calm_world (MsgLoading (model_size init_service)) = None
           \<and> console calm_world (MsgLoaded (load_end calm_world - load_start calm_world)) = None"
    by (simp add: calm_world_def)
  have f: "\<not> faster_whisper_available bare_world \<and> model init_service = None"
    by (simp add: bare_world_def init_service_def)
  have g: "console bare_world MsgNotAvailable = None"
    by (simp add: bare_world_def calm_world_def)
  from failed_load_is_retried [of exhausted_world init_service init_service] a b c d
  obtain r s'' where
    r: "load_model calm_world init_service = Some (r, s'')"
       "(r = Inr True) =
                 (construct calm_world = None
                  \<and> console calm_world (MsgLoading (model_size init_service)) = None
                  \<and> console calm_world (MsgLoaded (load_end calm_world - load_start calm_world))
                      = None)"
       "r = Inr True \<longrightarrow>
          model s'' = Some (WhisperModel (model_size init_service) (device init_service)
                              (compute_type init_service))"
    by blast
  from r(2) e have "r = Inr True" by simp
  moreover have "load_model calm_world init_service = Some (Inr True, ready_service)"
    by (simp add: load_model_def load_try_def calm_world_def ready_service_def init_service_def)
  moreover from failed_load_is_retried [of bare_world init_service] f g
  have "load_model bare_world init_service = Some (Inr False, init_service)" by simp
  ultimately show ?thesis using a b c d f by simp
qed

text \<open>
  C4. For a path that does not exist, \<open>add_directory\<close> and \<open>add_file\<close> raise their
  \<open>ValueError\<close> to the caller and leave the processor and the disk as they were: nothing is
  enqueued and no output directory is created.
\<close>

theorem missing_path_is_refused:
  assumes "\<not> path_exists w path"
  shows "add_directory w path out (p, d) =
           (Inl (ValueError (''Source directory does not exist: '' @ path)), p, d) \<and>
         add_file w path out (p, d) =
           (Inl (ValueError (''File does not exist: '' @ path)), p, d)"
  using assms by (simp add: add_directory.simps add_file.simps)

text \<open>The path \<open>/no/such/path\<close> in a world where no path exists.\<close>

theorem missing_path_is_refused_witness:
  "\<not> path_exists barren_world ''/no/such/path'' \<and>
   add_directory barren_world ''/no/such/path'' None (fresh_processor, empty_disk) =
     (Inl (ValueError ''Source directory does not exist: /no/such/path''),
      fresh_processor, empty_disk) \<and>
   add_file barren_world ''/no/such/path'' None (fresh_processor, empty_disk) =
     (Inl (ValueError ''File does not exist: /no/such/path''), fresh_processor, empty_disk)"
proof -
  have a: "\<not> path_exists barren_world ''/no/such/path''"
    by (simp add: barren_world_def)
  from missing_path_is_refused [OF a, of None fresh_processor empty_disk] a
  show ?thesis by simp
qed

text \<open>
  C7, as stated, fails: a processor that was constructed and never started answers the
  status query.
\<close>

theorem status_before_start_counterexample:
  "\<not> is_running fresh_processor \<and> \<not> isl (get_queue_status (Some fresh_processor))"
  by (simp add: fresh_processor_def init_processor_def get_queue_status_def)

text \<open>
  C7, amended. The status query succeeds for every processor, started or not, and reports
  the running flag as it is (true after \<open>start\<close>); the route fails, with status 503, only
  while no processor object exists.
\<close>

theorem status_always_succeeds:
  "get_queue_status (Some p) = Inr (get_status p) \<and>
   st_is_running (get_status p) = is_running p \<and>
   st_is_running (get_status (snd (start w p))) \<and>
   get_queue_status None = Inl (HTTPException 503 ''File queue processor not available'')"
  by (simp add: get_queue_status_def get_status_def start_def Let_def)

text \<open>
  C1. After each completed item the counters should satisfy
  \<open>successful_processed + failed_processed = total_processed\<close>, also when an exception
  leaves \<open>_process_file\<close> and reaches the outer handler of the loop. The handler of
  \<open>_process_file\<close> keeps the equation whatever happens (\<open>process_file_keeps_invariant\<close>);
  the outer handler does not: it adds one to \<open>failed_processed\<close> alone. Here the console
  cannot write the name of the file, so the \<open>print\<close> in the handler of \<open>_process_file\<close>
  raises, and one pass of the loop leaves the counters at 0 processed, 0 successful,
  1 failed.
\<close>

theorem outer_handler_breaks_counters:
  "map_option counters
     (processor_after (queue_step mute_world (one_item_processor, ready_service, empty_disk)))
     = Some (0, 0, 1)"
  by (simp add: queue_step.simps process_file.simps process_try.simps mute_world_def
        calm_world_def one_item_processor_def fresh_processor_def init_processor_def
        sample_item_def counters_def processor_after_def Let_def)

text \<open>
  C2, as stated, fails: an item whose conversion fails after two seconds is counted as
  processed and failed, and \<open>total_time\<close> stays 0.
\<close>

theorem failed_item_adds_no_time_counterexample:
  "file_end deaf_world - file_start deaf_world = 2 \<and>
   map_option counters
     (processor_after (process_file deaf_world (sample_item ''/in/a.mp3'')
        (fresh_processor, ready_service, empty_disk))) = Some (1, 0, 1) \<and>
   map_option total_time
     (processor_after (process_file deaf_world (sample_item ''/in/a.mp3'')
        (fresh_processor, ready_service, empty_disk))) = Some 0"
  by (simp add: process_file.simps process_try.simps deaf_world_def
        calm_world_def fresh_processor_def init_processor_def
        sample_item_def counters_def processor_after_def Let_def)

text \<open>
  C2, amended. With no load in progress, \<open>_process_file\<close> returns, and \<open>total_time\<close> has
  then grown by the elapsed wall time of the item exactly when \<open>successful_processed\<close> has
  grown, and is unchanged otherwise. An item that fails (conversion, transcription, empty
  result or write failure) adds nothing to \<open>successful_processed\<close> nor to \<open>total_time\<close>.
  When the console accepts every message, each item adds one to \<open>total_processed\<close>, and
  an item that succeeds adds one to \<open>successful_processed\<close> and its elapsed time to
  \<open>total_time\<close>. The status reports \<open>total_time\<close> as it is, and as average \<open>total_time\<close>
  divided by \<open>total_processed\<close> (0 when nothing was processed): the time of the
  successful items over the count of all processed items.
\<close>

theorem elapsed_time_added_on_success_only:
  assumes "\<not> loading s"
  shows "\<exists>r p' s' d'. process_file w it (p, s, d) = Some (r, p', s', d')
        \<and> total_time p' = total_time p
              + (if successful_processed p' = successful_processed p then 0
                 else file_end w - file_start w)
        \<and> (spec_outcome w (model s \<noteq> None) it \<noteq> Success \<longrightarrow>
              successful_processed p' = successful_processed p \<and> total_time p' = total_time p)
        \<and> (quiet w \<longrightarrow>
              total_processed p' = total_processed p + 1
            \<and> (spec_outcome w (model s \<noteq> None) it = Success \<longrightarrow>
                  successful_processed p' = successful_processed p + 1
                \<and> total_time p' = total_time p + (file_end w - file_start w)))
        \<and> st_total_time (get_status p') = total_time p'
        \<and> st_average_time (get_status p') =
              (if 0 < total_processed p' then total_time p' / of_int (total_processed p')
               else 0)"
proof -
  from process_file_returns [OF assms, of w it p d] obtain r p' s' d' where
    g: "process_file w it (p, s, d) = Some (r, p', s', d')"
       "(successful_processed p' = successful_processed p \<and> total_time p' = total_time p)
        \<or> (successful_processed p' = successful_processed p + 1
            \<and> total_time p' = total_time p + (file_end w - file_start w)
            \<and> spec_outcome w (model s \<noteq> None) it = Success)"
    by blast
  have q: "total_processed p' = total_processed p + 1
            \<and> (spec_outcome w (model s \<noteq> None) it = Success \<longrightarrow>
                  successful_processed p' = successful_processed p + 1
                \<and> total_time p' = total_time p + (file_end w - file_start w))"
    if "quiet w"
    using process_file_quiet [OF that assms, of it p d] g(1) by auto
  have st: "st_total_time (get_status p') = total_time p'
        \<and> st_average_time (get_status p') =
              (if 0 < total_processed p' then total_time p' / of_int (total_processed p')
               else 0)"
    by (simp add: get_status_def)
  from g q st show ?thesis by auto
qed

text \<open>One item that succeeds and one whose conversion fails, two seconds each.\<close>

theorem elapsed_time_added_on_success_only_witness:
  "\<not> loading ready_service \<and> quiet calm_world \<and> quiet deaf_world \<and>
   spec_outcome calm_world (model ready_service \<noteq> None) (sample_item ''/in/a.mp3'') = Success \<and>
   spec_outcome deaf_world (model ready_service \<noteq> None) (sample_item ''/in/a.mp3'') \<noteq> Success \<and>
   (\<exists>r p' s' d'. process_file calm_world (sample_item ''/in/a.mp3'')
                  (fresh_processor, ready_service, empty_disk) = Some (r, p', s', d')
        \<and> total_processed p' = 1 \<and> successful_processed p' = 1 \<and> total_time p' = 2
        \<and> st_average_time (get_status p') = 2) \<and>
   (\<exists>r p' s' d'. process_file deaf_world (sample_item ''/in/a.mp3'')
                  (fresh_processor, ready_service, empty_disk) = Some (r, p', s', d')
        \<and> total_processed p' = 1 \<and> successful_processed p' = 0 \<and> total_time p' = 0
        \<and> st_average_time (get_status p') = 0)"
proof -
  have l: "\<not> loading ready_service" by (simp add: ready_service_def init_service_def)
  have z: "total_processed fresh_processor = 0" "total_time fresh_processor = 0"
    "successful_processed fresh_processor = 0"
    by (simp_all add: fresh_processor_def init_processor_def)
  have t: "file_end calm_world - file_start calm_world = 2" by (simp add: calm_world_def)
  have ok: "spec_outcome calm_world (model ready_service \<noteq> None) (sample_item ''/in/a.mp3'')
              = Success"
    by (rule calm_success)
  have ko: "spec_outcome deaf_world (model ready_service \<noteq> None) (sample_item ''/in/a.mp3'')
              \<noteq> Success"
    by (simp add: deaf_failure)
  from elapsed_time_added_on_success_only [OF l, of calm_world
         "sample_item ''/in/a.mp3''" fresh_processor empty_disk] quiet_calm ok
  have one: "\<exists>r p' s' d'. process_file calm_world (sample_item ''/in/a.mp3'')
                  (fresh_processor, ready_service, empty_disk) = Some (r, p', s', d')
        \<and> total_processed p' = 1 \<and> successful_processed p' = 1 \<and> total_time p' = 2
        \<and> st_average_time (get_status p') = 2"
    by (auto simp: z t)
  from elapsed_time_added_on_success_only [OF l, of deaf_world
         "sample_item ''/in/a.mp3''" fresh_processor empty_disk] quiet_deaf ko
  have two: "\<exists>r p' s' d'. process_file deaf_world (sample_item ''/in/a.mp3'')
                  (fresh_processor, ready_service, empty_disk) = Some (r, p', s', d')
        \<and> total_processed p' = 1 \<and> successful_processed p' = 0 \<and> total_time p' = 0
        \<and> st_average_time (get_status p') = 0"
    by (auto simp: z)
  from l quiet_calm quiet_deaf ok ko one two show ?thesis by blast
qed

text \<open>
  C3. \<open>add_directory\<close> should return the number of files it enqueued, and 0 for an existing
  directory without audio files. With a file found it returns the count
  (\<open>add_directory_counts\<close>); on the directory without audio files it returns Python's
  \<open>None\<close>, not the integer 0.
\<close>

theorem empty_directory_returns_none:
  "path_exists notes_world ''/tmp/empty'' \<and>
   find_audio_files notes_world ''/tmp/empty'' = [] \<and>
   fst (add_directory notes_world ''/tmp/empty'' None (fresh_processor, empty_disk))
     = Inr None \<and>
   fst (add_directory notes_world ''/tmp/empty'' None (fresh_processor, empty_disk))
     \<noteq> Inr (Some 0)"
  by (simp add: add_directory.simps notes_world_def calm_world_def find_audio_files_def
        path_suffix_def rfind_def lower_def py_lower_char_def supported_extensions_def
        os_path_join_def Let_def)

text \<open>
  C5, as stated, fails: with the console closed, an item whose conversion fails ends the
  loop, because the \<open>print\<close> of the outer handler raises in its turn.
\<close>

theorem closed_console_ends_worker_counterexample:
  "console calm_world MsgThreadStarted = None \<and>
   is_running one_item_processor \<and>
   convert_to_wav stifled_world ''/in/a.mp3'' = Inr None \<and>
   map_option fst (process_queue calm_world [stifled_world]
                     (one_item_processor, ready_service, empty_disk))
     = Some (Died (OtherException ''I/O operation on closed file''))"
  by (simp add: process_queue_def queue_step.simps process_file.simps process_try.simps
        stifled_world_def deaf_world_def calm_world_def one_item_processor_def
        fresh_processor_def init_processor_def sample_item_def Let_def)

text \<open>
  C5, amended. Take a running worker, no load in progress, observed for one pass of its
  loop per queued item. If the thread's first message and the message of the loop's
  outer handler can be written, nothing that happens while an item is processed ends the
  loop: afterwards the worker is still looping with the running flag set and the queue
  empty. If moreover the console accepts every message, every item has been counted in
  \<open>total_processed\<close>, \<open>failed_processed\<close> has grown by the number of items that failed
  (conversion, transcription, empty result or write failure) and \<open>successful_processed\<close>
  by the number that succeeded.
\<close>

theorem worker_survives_item_failures:
  assumes "console w0 MsgThreadStarted = None"
    "\<forall>w\<in>set ws. \<forall>e. console w (MsgQueueError e) = None"
    "\<not> loading s" "is_running p" "length ws = length (queue p)"
  shows "\<exists>p' s' d'. process_queue w0 ws (p, s, d) = Some (Looping, p', s', d')
        \<and> queue p' = [] \<and> is_running p'
        \<and> ((\<forall>w\<in>set ws. quiet w) \<longrightarrow>
              total_processed p' = total_processed p + int (length (queue p))
            \<and> failed_processed p' = failed_processed p
                + count_failed (spec_outcomes ws (model s \<noteq> None) (queue p))
            \<and> successful_processed p' = successful_processed p
                + count_succeeded (spec_outcomes ws (model s \<noteq> None) (queue p)))"
proof -
  from queue_loop_survives [OF assms(2-5), of d] obtain p' s' d' where
    alive: "queue_loop ws (p, s, d) = Some (Looping, p', s', d')" "queue p' = []"
      "is_running p'"
    by blast
  have counts: "total_processed p' = total_processed p + int (length (queue p))
            \<and> failed_processed p' = failed_processed p
                + count_failed (spec_outcomes ws (model s \<noteq> None) (queue p))
            \<and> successful_processed p' = successful_processed p
                + count_succeeded (spec_outcomes ws (model s \<noteq> None) (queue p))"
    if q: "\<forall>w\<in>set ws. quiet w"
    using queue_loop_drains [OF q assms(3-5), of d] alive(1) by auto
  have "process_queue w0 ws (p, s, d) = Some (Looping, p', s', d')"
    using assms(1) alive(1) by (simp add: process_queue_def)
  with alive(2,3) counts show ?thesis by blast
qed

text \<open>
  One item whose name the console cannot write, caught by the outer handler; and five
  items of which the second and the fourth fail conversion: 2 failed, 3 successful.
\<close>

theorem worker_survives_item_failures_witness:
  "console calm_world MsgThreadStarted = None \<and>
   \<not> loading ready_service \<and> is_running one_item_processor \<and>
   console mute_world (MsgProcessing ''a.mp3'') \<noteq> None \<and>
   (\<exists>p' s' d'. process_queue calm_world [mute_world]
                  (one_item_processor, ready_service, empty_disk) = Some (Looping, p', s', d')
        \<and> queue p' = [] \<and> is_running p') \<and>
   quiet picky_world \<and> \<not> loading init_service \<and> is_running busy_processor \<and>
   length (replicate 5 picky_world) = length (queue busy_processor) \<and>
   (\<exists>p' s' d'. process_queue picky_world (replicate 5 picky_world)
                  (busy_processor, init_service, empty_disk) = Some (Looping, p', s', d')
        \<and> queue p' = [] \<and> is_running p'
        \<and> total_processed p' = 5 \<and> failed_processed p' = 2 \<and> successful_processed p' = 3)"
proof -
  have t0: "console calm_world MsgThreadStarted = None" by (simp add: calm_world_def)
  have lr: "\<not> loading ready_service" by (simp add: ready_service_def init_service_def)
  have r1: "is_running one_item_processor" by (simp add: one_item_processor_def)
  have n1: "length [mute_world] = length (queue one_item_processor)"
    by (simp add: one_item_processor_def)
  have o1: "\<forall>w\<in>set [mute_world]. \<forall>e. console w (MsgQueueError e) = None"
    by (simp add: mute_world_def calm_world_def)
  have m1: "console mute_world (MsgProcessing ''a.mp3'') \<noteq> None"
    by (simp add: mute_world_def calm_world_def)
  from worker_survives_item_failures [OF t0 o1 lr r1 n1, of empty_disk]
  have one: "\<exists>p' s' d'. process_queue calm_world [mute_world]
                  (one_item_processor, ready_service, empty_disk) = Some (Looping, p', s', d')
        \<and> queue p' = [] \<and> is_running p'"
    by blast
  have t5: "console picky_world MsgThreadStarted = None"
    using quiet_picky by (simp add: quiet_def)
  have a: "\<forall>w\<in>set (replicate 5 picky_world). quiet w" by (simp add: quiet_picky)
  have o5: "\<forall>w\<in>set (replicate 5 picky_world). \<forall>e. console w (MsgQueueError e) = None"
    using quiet_picky by (simp add: quiet_def)
  have b: "\<not> loading init_service" by (simp add: init_service_def)
  have c: "is_running busy_processor" by (simp add: busy_processor_def)
  have q: "queue busy_processor = five_items" by (simp add: busy_processor_def)
  have d: "length (replicate 5 picky_world) = length (queue busy_processor)"
    by (simp add: q five_items_def)
  have z: "total_processed busy_processor = 0" "failed_processed busy_processor = 0"
    "successful_processed busy_processor = 0"
    by (simp_all add: busy_processor_def fresh_processor_def init_processor_def)
  have m: "(model init_service \<noteq> None) = False" by (simp add: init_service_def)
  from worker_survives_item_failures [OF t5 o5 b c d, of empty_disk] a
  have five: "\<exists>p' s' d'. process_queue picky_world (replicate 5 picky_world)
                  (busy_processor, init_service, empty_disk) = Some (Looping, p', s', d')
        \<and> queue p' = [] \<and> is_running p'
        \<and> total_processed p' = 5 \<and> failed_processed p' = 2 \<and> successful_processed p' = 3"
    unfolding m q picky_outcomes z
    by (simp add: count_failed_def count_succeeded_def five_items_def)
  from t0 lr r1 m1 one quiet_picky b c d five show ?thesis by blast
qed



text \<open>
  C9, as stated, fails: for the two segments \<open>a\<close> and \<open>b\<close> the service returns \<open>a b\<close>,
  not the trimmed concatenation \<open>ab\<close>.
\<close>

theorem transcribe_joins_counterexample:
  "inference two_segment_world ''/in/a.wav'' None = Inr [''a'', ''b''] \<and>
   map_option fst (transcribe two_segment_world ''/in/a.wav'' None ready_service)
     = Some (Inr (Some ''a b'', None)) \<and>
   map_option fst (transcribe two_segment_world ''/in/a.wav'' None ready_service)
     \<noteq> Some (Inr (Some (spec_transcription [''a'', ''b'']), None))"
  by (simp add: transcribe_def load_model_def two_segment_world_def calm_world_def
        ready_service_def init_service_def spec_transcription_def strip_def py_isspace_def
        Let_def)

text \<open>
  C9, amended. Once the model is loaded, \<open>transcribe\<close> returns, when the inference
  succeeds, the texts of all segments, each followed by one space, concatenated and
  trimmed; it adds one to its count, the elapsed time to its cumulative time, and sets
  the average to their quotient. When the inference fails it returns the error text and
  adds one to its error counter only: count, cumulative time and average stay.
\<close>

theorem transcribe_result_and_statistics:
  assumes "load_model w s = Some (Inr True, s1)"
  shows "case inference w path language of
           Inr segments \<Rightarrow>
             \<exists>s'. transcribe w path language s =
                    Some (Inr (Some (strip (concat (map (\<lambda>text. text @ '' '') segments))),
                               None), s')
                \<and> whisper_total_processed s' = whisper_total_processed s + 1
                \<and> whisper_total_time s' =
                    whisper_total_time s + (transcribe_end w - transcribe_start w)
                \<and> whisper_average_time s' =
                    whisper_total_time s' / of_int (whisper_total_processed s')
                \<and> whisper_errors s' = whisper_errors s
         | Inl e \<Rightarrow>
             \<exists>s'. transcribe w path language s = Some (Inr (None, Some (str_exn e)), s')
                \<and> whisper_errors s' = whisper_errors s + 1
                \<and> whisper_total_processed s' = whisper_total_processed s
                \<and> whisper_total_time s' = whisper_total_time s
                \<and> whisper_average_time s' = whisper_average_time s"
  using assms load_model_stats [OF assms]
  by (simp add: transcribe_def collect_concat Let_def split: sum.splits)

text \<open>One inference of two segments, and one that raises.\<close>

theorem transcribe_result_and_statistics_witness:
  "load_model two_segment_world ready_service = Some (Inr True, ready_service) \<and>
   (\<exists>s'. transcribe two_segment_world ''/in/a.wav'' None ready_service =
            Some (Inr (Some ''a b'', None), s')
        \<and> whisper_total_processed s' = 1 \<and> whisper_total_time s' = 2
        \<and> whisper_average_time s' = 2 \<and> whisper_errors s' = 0) \<and>
   load_model broken_inference_world ready_service = Some (Inr True, ready_service) \<and>
   (\<exists>s'. transcribe broken_inference_world ''/in/a.wav'' None ready_service =
            Some (Inr (None, Some ''out of memory''), s')
        \<and> whisper_errors s' = 1 \<and> whisper_total_processed s' = 0
        \<and> whisper_total_time s' = 0 \<and> whisper_average_time s' = 0)"
proof -
  have a: "load_model two_segment_world ready_service = Some (Inr True, ready_service)"
    by (simp add: load_model_def ready_service_def)
  have b: "load_model broken_inference_world ready_service = Some (Inr True, ready_service)"
    by (simp add: load_model_def ready_service_def)
  have ia: "inference two_segment_world ''/in/a.wav'' None = Inr [''a'', ''b'']"
    by (simp add: two_segment_world_def calm_world_def)
  have ib: "inference broken_inference_world ''/in/a.wav'' None
              = Inl (OtherException ''out of memory'')"
    by (simp add: broken_inference_world_def calm_world_def)
  have ta: "transcribe_end two_segment_world - transcribe_start two_segment_world = 2"
    by (simp add: two_segment_world_def calm_world_def)
  have st: "strip ''a b '' = ''a b''"
    by (simp add: strip_def py_isspace_def)
  have z: "whisper_total_processed ready_service = 0" "whisper_total_time ready_service = 0"
      "whisper_errors ready_service = 0" "whisper_average_time ready_service = 0"
    by (simp_all add: ready_service_def init_service_def)
  from transcribe_result_and_statistics [OF a, of "''/in/a.wav''" None]
  have one: "\<exists>s'. transcribe two_segment_world ''/in/a.wav'' None ready_service =
            Some (Inr (Some ''a b'', None), s')
        \<and> whisper_total_processed s' = 1 \<and> whisper_total_time s' = 2
        \<and> whisper_average_time s' = 2 \<and> whisper_errors s' = 0"
    by (auto simp: ia ta st z)
  from transcribe_result_and_statistics [OF b, of "''/in/a.wav''" None]
  have two: "\<exists>s'. transcribe broken_inference_world ''/in/a.wav'' None ready_service =
            Some (Inr (None, Some ''out of memory''), s')
        \<and> whisper_errors s' = 1 \<and> whisper_total_processed s' = 0
        \<and> whisper_total_time s' = 0 \<and> whisper_average_time s' = 0"
    by (auto simp: ib z)
  from a b one two show ?thesis by blast
qed

text \<open>
  C10. \<open>stop\<close> changes the running flag only: the queue, in its order, and the four
  statistics are as before. A later \<open>start\<close> sets the flag again over the same queue, and
  the worker then processes every retained item.
\<close>

theorem stop_keeps_queue_and_counters:
  "queue (snd (stop w p)) = queue p \<and>
   total_processed (snd (stop w p)) = total_processed p \<and>
   successful_processed (snd (stop w p)) = successful_processed p \<and>
   failed_processed (snd (stop w p)) = failed_processed p \<and>
   total_time (snd (stop w p)) = total_time p \<and>
   \<not> is_running (snd (stop w p)) \<and>
   is_running (snd (start w' (snd (stop w p)))) \<and>
   queue (snd (start w' (snd (stop w p)))) = queue p \<and>
   (quiet w0 \<and> list_all quiet ws \<and> \<not> loading s \<and> length ws = length (queue p) \<longrightarrow>
      (\<exists>p' s' d'. process_queue w0 ws (snd (start w' (snd (stop w p))), s, d)
                     = Some (Looping, p', s', d')
          \<and> queue p' = []
          \<and> total_processed p' = total_processed p + int (length (queue p))))"
proof -
  let ?r = "snd (start w' (snd (stop w p)))"
  have frame: "queue ?r = queue p" "is_running ?r" "total_processed ?r = total_processed p"
    by (simp_all add: stop_def start_def Let_def)
  have "\<exists>p' s' d'. process_queue w0 ws (?r, s, d) = Some (Looping, p', s', d')
          \<and> queue p' = []
          \<and> total_processed p' = total_processed p + int (length (queue p))"
    if h: "quiet w0" "list_all quiet ws" "\<not> loading s" "length ws = length (queue p)"
  proof -
    from h(2) have a: "\<forall>x\<in>set ws. quiet x" by (simp add: list_all_iff)
    from h(4) frame(1) have b: "length ws = length (queue ?r)" by simp
    from process_queue_drains [OF h(1) a h(3) frame(2) b, of d] frame
    show ?thesis by auto
  qed
  then show ?thesis
    by (simp add: stop_def start_def Let_def)
qed

text \<open>Five pending items, stopped, started again and drained.\<close>

theorem stop_keeps_queue_and_counters_witness:
  "queue (snd (stop calm_world busy_processor)) = five_items \<and>
   \<not> is_running (snd (stop calm_world busy_processor)) \<and>
   quiet calm_world \<and> list_all quiet (replicate 5 calm_world) \<and> \<not> loading ready_service \<and>
   length (replicate 5 calm_world) = length (queue busy_processor) \<and>
   (\<exists>p' s' d'. process_queue calm_world (replicate 5 calm_world)
                  (snd (start calm_world (snd (stop calm_world busy_processor))),
                   ready_service, empty_disk) = Some (Looping, p', s', d')
        \<and> queue p' = [] \<and> total_processed p' = 5)"
proof -
  have l: "\<not> loading ready_service" by (simp add: ready_service_def init_service_def)
  have a: "list_all quiet (replicate 5 calm_world)"
    by (simp add: list_all_iff quiet_calm)
  have q: "queue busy_processor = five_items" by (simp add: busy_processor_def)
  have n: "length (replicate 5 calm_world) = length (queue busy_processor)"
    by (simp add: q five_items_def)
  have z: "total_processed busy_processor = 0"
    by (simp add: busy_processor_def fresh_processor_def init_processor_def)
  have f: "int (length five_items) = 5" by (simp add: five_items_def)
  from stop_keeps_queue_and_counters
         [of calm_world busy_processor calm_world calm_world "replicate 5 calm_world"
             ready_service empty_disk]
       quiet_calm a l n
  show ?thesis by (simp add: q z f)
qed

end
